theory Spec2Isabelle
  imports Main "HOL-Library.AList"
begin

section \<open>The route loader of lib/server.js\<close>

text \<open>
  The development embeds \<open>routeLoader\<close> (lib/server.js, lines 108 to 184): the upward
  walk that collects middleware for a handler file, the registration of the collected
  chain, the test that decides whether the handler's entry point is invoked, and the
  wrapper that is installed over \<open>get/post/put/patch/delete/options/head\<close> to merge the
  sibling \<open>schema.json\<close> into the options of a route.
\<close>

subsection \<open>Paths\<close>

text \<open>
  An absolute POSIX path is the list of its segments below the root: \<open>/srv/api/index.js\<close>
  is \<open>[''srv'', ''api'', ''index.js'']\<close> and the root \<open>/\<close> is \<open>[]\<close>.
  \<open>path.dirname\<close> of the root is the root, \<open>path.basename\<close> of the root is the empty
  string, and \<open>path.resolve\<close> applies further segments from left to right, where \<open>..\<close>
  drops the last segment (and leaves the root where it is) and \<open>.\<close> and the empty
  segment change nothing.
\<close>

type_synonym path = "string list"

definition path_dirname :: "path \<Rightarrow> path" where
  "path_dirname p = butlast p"

definition path_basename :: "path \<Rightarrow> string" where
  "path_basename p = (if p = [] then [] else last p)"

fun path_resolve :: "path \<Rightarrow> string list \<Rightarrow> path" where
  "path_resolve p [] = p"
| "path_resolve p (s # ss) =
     (if s = ''..'' then path_resolve (butlast p) ss
      else if s = ''.'' \<or> s = [] then path_resolve p ss
      else path_resolve (p @ [s]) ss)"

subsection \<open>Values\<close>

text \<open>
  The values that reach the loader: primitives, plain objects (an association list from
  property names to values; the order of the entries carries no meaning and properties
  are read with \<open>map_of\<close>), and functions. A function value records which kind of function
  it is, since the loader reads \<open>Symbol.toStringTag\<close> from it, and a number that tells
  functions apart. Arrays are left out.
\<close>

datatype fn_kind = PlainFn | AsyncFn | GeneratorFn | AsyncGeneratorFn

datatype jsval =
    JUndefined
  | JNull
  | JBool bool
  | JNum int
  | JStr string
  | JObj "(string \<times> jsval) list"
  | JFun fn_kind nat

type_synonym jsobj = "(string \<times> jsval) list"

datatype error = ReferenceError | TypeError | LoadError path

fun truthy :: "jsval \<Rightarrow> bool" where
  "truthy JUndefined = False"
| "truthy JNull = False"
| "truthy (JBool b) = b"
| "truthy (JNum n) = (n \<noteq> 0)"
| "truthy (JStr s) = (s \<noteq> [])"
| "truthy (JObj kv) = True"
| "truthy (JFun k n) = True"

text \<open>\<open>typeof v === 'object'\<close> holds of \<open>null\<close> and of objects; \<open>typeof v === 'function'\<close> of functions.\<close>

fun typeof_object :: "jsval \<Rightarrow> bool" where
  "typeof_object JNull = True"
| "typeof_object (JObj kv) = True"
| "typeof_object v = False"

fun typeof_function :: "jsval \<Rightarrow> bool" where
  "typeof_function (JFun k n) = True"
| "typeof_function v = False"

text \<open>
  What \<open>await import(file)\<close> yields is a module namespace object. The loader reads only its
  \<open>default\<close> property, so a loaded module is represented by the value of that property
  (\<open>JUndefined\<close> when the module has none). \<open>m.default || m\<close> is the default export when
  that is truthy and the namespace object itself otherwise.
\<close>

datatype handle = Exported jsval | Namespace

definition resolve_handle :: "jsval \<Rightarrow> handle" where
  "resolve_handle dflt = (if truthy dflt then Exported dflt else Namespace)"

text \<open>
  \<open>handle[Symbol.toStringTag]\<close>. The language defines the property on the prototypes of
  async functions, generator functions and async generator functions, and on module
  namespace objects. \<open>Function.prototype\<close> has no such property, so an ordinary function
  yields \<open>undefined\<close> (\<open>None\<close>), as do strings, numbers, booleans and plain objects.
\<close>

fun to_string_tag :: "handle \<Rightarrow> string option" where
  "to_string_tag Namespace = Some ''Module''"
| "to_string_tag (Exported (JFun AsyncFn n)) = Some ''AsyncFunction''"
| "to_string_tag (Exported (JFun GeneratorFn n)) = Some ''GeneratorFunction''"
| "to_string_tag (Exported (JFun AsyncGeneratorFn n)) = Some ''AsyncGeneratorFunction''"
| "to_string_tag (Exported v) = None"

definition handle_truthy :: "handle \<Rightarrow> bool" where
  "handle_truthy h = (case h of Namespace \<Rightarrow> True | Exported v \<Rightarrow> truthy v)"

subsection \<open>The environment\<close>

text \<open>
  The loader reads the file system, loads modules and parses JSON. The environment holds
  what these answer:
  \<^item> \<open>fs_bound\<close>: whether the identifier \<open>fs\<close> resolves when the loader runs. No
    declaration of the module binds \<open>fs\<close> (it is not among the \<open>require\<close>s of lines 4 to
    18), so the identifier is looked up on the global object. A program started as
    \<open>node main.js\<close> has no global \<open>fs\<close>; under \<open>node -e\<close>, in the REPL, or after an
    assignment to \<open>globalThis.fs\<close> it is Node's \<open>fs\<close> module. Reading an identifier that
    is bound nowhere throws a ReferenceError.
  \<^item> \<open>glob_sync\<close>: what \<open>glob.sync([pattern])\<close> returns for a pattern, which is given by
    the segments of its path. The loader hands the resolved path to the glob library as
    it is, and the library reads glob syntax (braces, brackets, parentheses, wildcards)
    in every segment, the directory names too. Which files a pattern selects is
    therefore left to the environment: nothing is assumed about where the paths returned
    lie.
  \<^item> \<open>files\<close>: the regular files with their contents, as \<open>fs.existsSync\<close> and
    \<open>fs.readFileSync\<close> see them.
  \<^item> \<open>import_module\<close>: the \<open>default\<close> property of the module at a path, \<open>None\<close> when loading
    it throws.
  \<^item> \<open>json_parse\<close>: \<open>JSON.parse\<close>, \<open>None\<close> when it throws a SyntaxError.
\<close>

record env =
  fs_bound :: bool
  glob_sync :: "path \<Rightarrow> path list"
  files :: "(path \<times> string) list"
  import_module :: "path \<Rightarrow> jsval option"
  json_parse :: "string \<Rightarrow> jsval option"

definition exists_sync :: "env \<Rightarrow> path \<Rightarrow> bool" where
  "exists_sync e p = (map_of (files e) p \<noteq> None)"

subsection \<open>The middleware walk (lines 119 to 140)\<close>

text \<open>
  \<open>up\<close> is the array of \<open>'../'\<close> entries; joined and resolved, each entry is one \<open>..\<close>
  segment. A collected plugin \<open>fp(handle)\<close> is kept with the path of the module it was
  loaded from.
\<close>

type_synonym plugin = "path \<times> handle"

definition fp :: "path \<Rightarrow> handle \<Rightarrow> plugin" where
  "fp src h = (src, h)"

text \<open>Line 123: the directory whose name is compared with \<open>handlers\<close>.\<close>

definition level_dir :: "path \<Rightarrow> string list \<Rightarrow> path" where
  "level_dir handler up = path_resolve handler up"

text \<open>Line 124: the pattern given to the glob.\<close>

definition middleware_pattern :: "path \<Rightarrow> string list \<Rightarrow> path" where
  "middleware_pattern handler up = path_resolve (path_dirname handler) (up @ [''middleware.*''])"

text \<open>Lines 127 to 133: load the module and push it when its tag is \<open>AsyncFunction\<close>.\<close>

definition load_middleware :: "env \<Rightarrow> path \<Rightarrow> plugin list \<Rightarrow> error + plugin list" where
  "load_middleware e middleware middlewares =
     (case import_module e middleware of
        None \<Rightarrow> Inl (LoadError middleware)
      | Some dflt \<Rightarrow>
          (let h = resolve_handle dflt in
           if handle_truthy h \<and> to_string_tag h = Some ''AsyncFunction''
           then Inr (middlewares @ [fp middleware h])
           else Inr middlewares))"

text \<open>
  The \<open>while (true)\<close> loop. It has no bound of its own, so the model is a partial function:
  \<open>None\<close> is a walk that never leaves the loop, \<open>Some (Inl e)\<close> a walk that throws \<open>e\<close>,
  \<open>Some (Inr ms)\<close> a walk that leaves the loop with \<open>ms\<close> collected.
\<close>

partial_function (option) walk ::
  "env \<Rightarrow> path \<Rightarrow> string list \<Rightarrow> plugin list \<Rightarrow> (error + plugin list) option" where
  "walk e handler up middlewares =
     (let basename = path_basename (level_dir handler up) in
      case glob_sync e (middleware_pattern handler up) of
        [] \<Rightarrow> Some (Inr middlewares)
      | middleware # rest \<Rightarrow>
          if \<not> fs_bound e then Some (Inl ReferenceError)
          else
            (case (if exists_sync e middleware
                   then load_middleware e middleware middlewares
                   else Inr middlewares) of
               Inl err \<Rightarrow> Some (Inl err)
             | Inr middlewares' \<Rightarrow>
                 if basename = ''handlers'' then Some (Inr middlewares')
                 else walk e handler (up @ [''..'']) middlewares'))"

declare walk.simps [code]

subsection \<open>Registration of one handler (lines 118 to 181)\<close>

text \<open>
  What the callback given to \<open>_instance.register\<close> does for one handler file, as the
  calls of \<open>wrapper.register\<close> it makes, in order, and the error it ends with, if any. A
  middleware registration hands over a collected plugin. The handler registration hands
  over the plugin of lines 149 to 178, which installs the wrappers of the seven methods
  and then calls the handler's entry point with the wrapped scope.
\<close>

datatype registration = Middleware plugin | HandlerPlugin handle

text \<open>\<open>['AsyncFunction', 'Function'].includes(handle[Symbol.toStringTag])\<close>\<close>

definition recognised_callable :: "handle \<Rightarrow> bool" where
  "recognised_callable h =
     (case to_string_tag h of
        None \<Rightarrow> False
      | Some t \<Rightarrow> t \<in> set [''AsyncFunction'', ''Function''])"

definition route_loader :: "env \<Rightarrow> path \<Rightarrow> (registration list \<times> error option) option" where
  "route_loader e handler =
     (case walk e handler [''..''] [] of
        None \<Rightarrow> None
      | Some (Inl err) \<Rightarrow> Some ([], Some err)
      | Some (Inr middlewares) \<Rightarrow>
          (let registered = map Middleware (rev middlewares) in
           case import_module e handler of
             None \<Rightarrow> Some (registered, Some (LoadError handler))
           | Some dflt \<Rightarrow>
               (let h = resolve_handle dflt in
                if handle_truthy h \<and> recognised_callable h
                then Some (registered @ [HandlerPlugin h], None)
                else Some (registered, None))))"

subsection \<open>The wrapper over a method (lines 152 to 174)\<close>

text \<open>
  Property access. Reading a property of \<open>null\<close> or \<open>undefined\<close> throws a TypeError; a
  plain object yields the stored value or \<open>undefined\<close>; the other values have no
  property named \<open>schema\<close>. Only objects and \<open>null\<close> are ever written to here.
\<close>

fun get_prop :: "jsval \<Rightarrow> string \<Rightarrow> error + jsval" where
  "get_prop JUndefined k = Inl TypeError"
| "get_prop JNull k = Inl TypeError"
| "get_prop (JObj kv) k = Inr (case map_of kv k of None \<Rightarrow> JUndefined | Some v \<Rightarrow> v)"
| "get_prop v k = Inr JUndefined"

fun set_prop :: "jsval \<Rightarrow> string \<Rightarrow> jsval \<Rightarrow> error + jsval" where
  "set_prop (JObj kv) k v = Inr (JObj (AList.update k v kv))"
| "set_prop obj k v = Inl TypeError"

text \<open>\<open>a ?? b\<close>\<close>

definition nullish_or :: "jsval \<Rightarrow> jsval \<Rightarrow> jsval" where
  "nullish_or a b = (if a = JUndefined \<or> a = JNull then b else a)"

text \<open>
  The own enumerable properties that \<open>{...v}\<close> copies: those of an object, the indexed
  characters of a string, none for the other values.
\<close>

fun decimal :: "nat \<Rightarrow> string" where
  "decimal n =
     (if n < 10 then [''0123456789'' ! n]
      else decimal (n div 10) @ [''0123456789'' ! (n mod 10)])"

declare decimal.simps [simp del]

fun own_props :: "jsval \<Rightarrow> jsobj" where
  "own_props (JObj kv) = kv"
| "own_props (JStr s) = zip (map decimal [0 ..< length s]) (map (\<lambda>c. JStr [c]) s)"
| "own_props v = []"

text \<open>\<open>{...a, ...b}\<close>: the properties of \<open>a\<close> are copied first, those of \<open>b\<close> after them, a later copy replacing an earlier value of the same name.\<close>

definition spread_into :: "jsobj \<Rightarrow> jsobj \<Rightarrow> jsobj" where
  "spread_into obj src = fold (\<lambda>(k, v). AList.update k v) src obj"

definition spread2 :: "jsval \<Rightarrow> jsval \<Rightarrow> jsval" where
  "spread2 a b = JObj (spread_into (spread_into [] (own_props a)) (own_props b))"

text \<open>
  Lines 163 to 168, the body of the \<open>try\<close>: any throw inside it (reading \<open>schema\<close> from a
  \<open>null\<close> options value, a SyntaxError of \<open>JSON.parse\<close>) leaves \<open>options\<close> as it was.
\<close>

definition read_file_sync :: "env \<Rightarrow> path \<Rightarrow> string option" where
  "read_file_sync e p = map_of (files e) p"

definition merge_schema_file :: "env \<Rightarrow> path \<Rightarrow> jsval \<Rightarrow> jsval" where
  "merge_schema_file e schema_path options =
     (case get_prop options ''schema'' of
        Inl err \<Rightarrow> options
      | Inr declared \<Rightarrow>
          (let override = nullish_or declared (JObj []) in
           case read_file_sync e schema_path of
             None \<Rightarrow> options
           | Some text \<Rightarrow>
               (case json_parse e text of
                  None \<Rightarrow> options
                | Some parsed \<Rightarrow>
                    (case set_prop options ''schema'' (spread2 override parsed) of
                       Inl err \<Rightarrow> options
                     | Inr options' \<Rightarrow> options'))))"

definition methods :: "string list" where
  "methods = [''get'', ''post'', ''put'', ''patch'', ''delete'', ''options'', ''head'']"

text \<open>
  Lines 154 to 161: \<open>options\<close> and \<open>route\<close> from the second and third argument.
\<close>

definition unpack_args :: "jsval \<Rightarrow> jsval \<Rightarrow> jsval \<times> jsval" where
  "unpack_args arg1 arg2 =
     (if typeof_object arg1 then (arg1, arg2)
      else if typeof_function arg1 then (JObj [], arg1)
      else (JObj [], JUndefined))"

text \<open>
  One call \<open>_instance[method](url, arg1, arg2)\<close> made by the handler. \<open>schema\<close> is the table
  of line 147. The outcome is an error that the call throws, or the new table together
  with the arguments \<open>(url, options, route)\<close> that are forwarded to the original method.
\<close>

definition intercepted ::
  "env \<Rightarrow> path \<Rightarrow> string \<Rightarrow> string \<Rightarrow> jsval \<Rightarrow> jsval \<Rightarrow> jsobj
     \<Rightarrow> error + (jsobj \<times> (string \<times> jsval \<times> jsval))" where
  "intercepted e handler method url arg1 arg2 schema =
     (let (options, route) = unpack_args arg1 arg2;
          schema_path = path_resolve (path_dirname handler) [''schema.json'']
      in
      if \<not> fs_bound e then Inl ReferenceError
      else
        (let options' = (if exists_sync e schema_path
                         then merge_schema_file e schema_path options
                         else options)
         in case get_prop options' ''schema'' of
              Inl err \<Rightarrow> Inl err
            | Inr s \<Rightarrow>
                Inr (if truthy s then AList.update (method @ url) s schema else schema,
                     (url, options', route))))"

subsection \<open>Concrete environments\<close>

text \<open>
  The environments at which the theorems below are evaluated. \<open>json_demo\<close> parses the one
  document that is used, \<open>{"a":2,"b":3}\<close>, and rejects every other text.
\<close>

definition json_demo :: "string \<Rightarrow> jsval option" where
  \<open>json_demo s =
     (if s = ''{"a":2,"b":3}'' then Some (JObj [(''a'', JNum 2), (''b'', JNum 3)]) else None)\<close>

text \<open>
  The listing of a pattern whose directory names hold no glob syntax and whose last
  segment holds wildcards: the files of the pattern's directory whose name matches the
  last segment, \<open>*\<close> standing for any run of characters. The environments below use
  plain directory names only.
\<close>

fun wild_match :: "string \<Rightarrow> string \<Rightarrow> bool" where
  "wild_match [] s = (s = [])"
| "wild_match (p # ps) [] = (p = CHR ''*'' \<and> wild_match ps [])"
| "wild_match (p # ps) (c # cs) =
     (if p = CHR ''*'' then wild_match ps (c # cs) \<or> wild_match (p # ps) cs
      else p = c \<and> wild_match ps cs)"

definition plain_listing :: "(path \<times> string) list \<Rightarrow> path \<Rightarrow> path list" where
  "plain_listing fs pattern =
     filter (\<lambda>p. p \<noteq> [] \<and> path_dirname p = path_dirname pattern
                 \<and> wild_match (path_basename pattern) (path_basename p))
            (map fst fs)"

definition mk_env :: "bool \<Rightarrow> (path \<times> string) list \<Rightarrow> (path \<times> jsval) list \<Rightarrow> env" where
  "mk_env bound fs mods =
     \<lparr>fs_bound = bound, glob_sync = plain_listing fs, files = fs,
      import_module = map_of mods, json_parse = json_demo\<rparr>"

text \<open>\<open>/srv/api/users/index.js\<close> with a sibling \<open>schema.json\<close> of the given text.\<close>

definition users_handler :: path where
  "users_handler = [''srv'', ''api'', ''users'', ''index.js'']"

definition env_schema :: "bool \<Rightarrow> string \<Rightarrow> env" where
  "env_schema bound text =
     mk_env bound
       [(users_handler, []), ([''srv'', ''api'', ''users'', ''schema.json''], text)]
       [(users_handler, JFun AsyncFn 0)]"

text \<open>The same handler with no \<open>schema.json\<close>.\<close>

definition env_plain :: "bool \<Rightarrow> jsval \<Rightarrow> env" where
  "env_plain bound entry = mk_env bound [(users_handler, [])] [(users_handler, entry)]"

text \<open>The same handler with a middleware file in its own directory and nowhere else.\<close>

definition env_sibling :: "bool \<Rightarrow> env" where
  "env_sibling bound =
     mk_env bound
       [(users_handler, []), ([''srv'', ''api'', ''users'', ''middleware.js''], [])]
       [(users_handler, JFun AsyncFn 0),
        ([''srv'', ''api'', ''users'', ''middleware.js''], JFun AsyncFn 1)]"

text \<open>The same handler with \<open>/srv/api/middleware.js\<close>, whose default export is given.\<close>

definition env_parent :: "bool \<Rightarrow> jsval \<Rightarrow> env" where
  "env_parent bound entry =
     mk_env bound
       [(users_handler, []), ([''srv'', ''api'', ''middleware.js''], [])]
       [(users_handler, JFun AsyncFn 0), ([''srv'', ''api'', ''middleware.js''], entry)]"

text \<open>
  \<open>/p/api/handlers/x/index.js\<close> with middleware files in \<open>/p/api/handlers\<close>, in
  \<open>/p/api\<close>, the directory above the one named \<open>handlers\<close>, and in \<open>/p\<close>.
\<close>

definition deep_handler :: path where
  "deep_handler = [''p'', ''api'', ''handlers'', ''x'', ''index.js'']"

definition env_deep :: env where
  "env_deep =
     mk_env True
       [([''p'', ''middleware.js''], []),
        ([''p'', ''api'', ''middleware.js''], []),
        ([''p'', ''api'', ''handlers'', ''middleware.js''], []),
        (deep_handler, [])]
       [([''p'', ''middleware.js''], JFun AsyncFn 3),
        ([''p'', ''api'', ''middleware.js''], JFun AsyncFn 2),
        ([''p'', ''api'', ''handlers'', ''middleware.js''], JFun AsyncFn 1),
        (deep_handler, JFun AsyncFn 0)]"

text \<open>\<open>/api/index.js\<close> with \<open>/middleware.js\<close> in the root directory.\<close>

definition root_handler :: path where
  "root_handler = [''api'', ''index.js'']"

definition env_root :: "bool \<Rightarrow> env" where
  "env_root bound =
     mk_env bound
       [([''middleware.js''], []), (root_handler, [])]
       [([''middleware.js''], JFun AsyncFn 1), (root_handler, JFun AsyncFn 0)]"

section \<open>Properties\<close>

subsection \<open>Auxiliary facts: paths\<close>

lemma path_resolve_ups:
  "path_resolve p (replicate n ''..'' @ ss) = path_resolve ((butlast ^^ n) p) ss"
  by (induction n arbitrary: p) (simp_all add: funpow_swap1)

lemma path_dirname_funpow: "(path_dirname ^^ n) p = (butlast ^^ n) p"
  by (induction n arbitrary: p) (simp_all add: path_dirname_def funpow_swap1)

lemma butlast_funpow_short: "length xs \<le> n \<Longrightarrow> (butlast ^^ n) xs = []"
  by (induction n arbitrary: xs) (simp_all add: funpow_swap1)

text \<open>
  At level \<open>n\<close> of the walk (\<open>up\<close> holds \<open>n\<close> entries) the directory whose name is tested is
  the \<open>n\<close>-th ancestor of the handler file, and the directory that is searched is the
  one above it.
\<close>

lemma level_dir_ups: "level_dir handler (replicate n ''..'') = (path_dirname ^^ n) handler"
  using path_resolve_ups [of handler n "[]"]
  by (simp add: level_dir_def path_dirname_funpow)

lemma middleware_pattern_ups:
  "middleware_pattern handler (replicate n ''..'')
     = (path_dirname ^^ Suc n) handler @ [''middleware.*'']"
  using path_resolve_ups [of "butlast handler" n "[''middleware.*'']"]
  by (simp add: middleware_pattern_def path_dirname_funpow path_dirname_def funpow_swap1)

subsection \<open>Auxiliary facts: the walk\<close>

text \<open>One level adds at most the plugin of the file it found, at the end of the list.\<close>

lemma load_step_cases:
  assumes "(if exists_sync e mw then load_middleware e mw ms0 else Inr ms0) = Inr ms1"
  shows "ms1 = ms0 \<or> (\<exists>h. ms1 = ms0 @ [(mw, h)])"
  using assms
  by (auto simp: load_middleware_def fp_def Let_def split: if_splits option.splits)

lemma load_step_members:
  assumes "(if exists_sync e mw then load_middleware e mw ms0 else Inr ms0) = Inr ms1"
  shows "set ms1 \<subseteq> set ms0 \<union> {pl. fst pl = mw}"
  using load_step_cases [OF assms] by auto

text \<open>With \<open>fs\<close> unbound, a level of the walk that finds a middleware file throws.\<close>

lemma walk_fs_unbound:
  assumes "\<not> fs_bound e" and "glob_sync e (middleware_pattern handler up) \<noteq> []"
  shows "walk e handler up middlewares = Some (Inl ReferenceError)"
  using assms by (subst walk.simps) (simp split: list.splits)

text \<open>
  Where a plugin of the result comes from: it was there at the start, or it is the first
  match of the lookup of a level \<open>n\<close>, and on every level from the current one up to \<open>n\<close>
  the walk found a middleware file and went on, the level's directory not being named
  \<open>handlers\<close>.
\<close>

lemma walk_collected:
  assumes "walk e handler up ms0 = Some r"
  shows "\<forall>m ms pl. up = replicate m ''..'' \<longrightarrow> r = Inr ms \<longrightarrow> pl \<in> set ms \<longrightarrow>
           pl \<in> set ms0 \<or>
           (\<exists>n\<ge>m. (\<exists>rest. glob_sync e (middleware_pattern handler (replicate n ''..'')) = fst pl # rest)
                 \<and> (\<forall>i. m \<le> i \<and> i < n \<longrightarrow>
                        path_basename (level_dir handler (replicate i ''..'')) \<noteq> ''handlers''
                      \<and> glob_sync e (middleware_pattern handler (replicate i ''..'')) \<noteq> []))"
proof (induct rule: walk.raw_induct [OF _ assms])
  case (1 walk' e handler up ms0 r)
  show ?case
  proof (intro allI impI)
    fix m ms pl
    assume up: "up = replicate m ''..''" and r: "r = Inr ms" and pl: "pl \<in> set ms"
    let ?G = "\<lambda>i. glob_sync e (middleware_pattern handler (replicate i ''..''))"
    let ?B = "\<lambda>i. path_basename (level_dir handler (replicate i ''..''))"
    let ?goal = "pl \<in> set ms0 \<or>
           (\<exists>n\<ge>m. (\<exists>rest. ?G n = fst pl # rest)
                 \<and> (\<forall>i. m \<le> i \<and> i < n \<longrightarrow> ?B i \<noteq> ''handlers'' \<and> ?G i \<noteq> []))"
    show ?goal
    proof (cases "?G m")
      case Nil
      with "1.hyps"(2) up r have "ms = ms0" by simp
      with pl show ?thesis by simp
    next
      case (Cons mw rest)
      from "1.hyps"(2) up r Cons obtain ms1 where
        step: "(if exists_sync e mw then load_middleware e mw ms0 else Inr ms0) = Inr ms1"
        and cont: "(if ?B m = ''handlers'' then Some (Inr ms1)
                    else walk' e handler (up @ [''..'']) ms1) = Some r"
        by (auto simp: Let_def split: if_splits sum.splits)
      have here: "pl \<in> set ms1 \<Longrightarrow> ?goal"
      proof -
        assume "pl \<in> set ms1"
        with load_step_members [OF step] have "pl \<in> set ms0 \<or> fst pl = mw" by auto
        then show ?goal
        proof
          assume "pl \<in> set ms0" then show ?goal by simp
        next
          assume "fst pl = mw"
          with Cons have "\<exists>rest. ?G m = fst pl # rest" by simp
          then have "m \<le> m \<and> (\<exists>rest. ?G m = fst pl # rest)
                 \<and> (\<forall>i. m \<le> i \<and> i < m \<longrightarrow> ?B i \<noteq> ''handlers'' \<and> ?G i \<noteq> [])" by auto
          then show ?goal by blast
        qed
      qed
      show ?thesis
      proof (cases "?B m = ''handlers''")
        case True
        with cont r have "ms = ms1" by simp
        with pl here show ?thesis by simp
      next
        case False
        with cont have w: "walk' e handler (up @ [''..'']) ms1 = Some r" by simp
        have up': "up @ [''..''] = replicate (Suc m) ''..''"
          by (simp add: up replicate_append_same)
        from "1.hyps"(1) [OF w, rule_format, OF up' r pl]
        have "pl \<in> set ms1 \<or>
           (\<exists>n\<ge>Suc m. (\<exists>rest. ?G n = fst pl # rest)
                 \<and> (\<forall>i. Suc m \<le> i \<and> i < n \<longrightarrow> ?B i \<noteq> ''handlers'' \<and> ?G i \<noteq> []))"
          .
        then show ?thesis
        proof
          assume "pl \<in> set ms1" then show ?goal by (rule here)
        next
          assume "\<exists>n\<ge>Suc m. (\<exists>rest. ?G n = fst pl # rest)
                 \<and> (\<forall>i. Suc m \<le> i \<and> i < n \<longrightarrow> ?B i \<noteq> ''handlers'' \<and> ?G i \<noteq> [])"
          then obtain n where n: "Suc m \<le> n" "\<exists>rest. ?G n = fst pl # rest"
            and above: "\<forall>i. Suc m \<le> i \<and> i < n \<longrightarrow> ?B i \<noteq> ''handlers'' \<and> ?G i \<noteq> []"
            by blast
          have "\<forall>i. m \<le> i \<and> i < n \<longrightarrow> ?B i \<noteq> ''handlers'' \<and> ?G i \<noteq> []"
          proof (intro allI impI)
            fix i assume i: "m \<le> i \<and> i < n"
            show "?B i \<noteq> ''handlers'' \<and> ?G i \<noteq> []"
            proof (cases "i = m")
              case True
              with False Cons show ?thesis by simp
            next
              case False
              with i have "Suc m \<le> i \<and> i < n" by simp
              with above show ?thesis by blast
            qed
          qed
          with n have "m \<le> n \<and> (\<exists>rest. ?G n = fst pl # rest)
                 \<and> (\<forall>i. m \<le> i \<and> i < n \<longrightarrow> ?B i \<noteq> ''handlers'' \<and> ?G i \<noteq> [])" by auto
          then show ?goal by blast
        qed
      qed
    qed
  qed
qed

text \<open>
  The order of the result: the walk appends, and what it appends are first matches of
  the lookups of strictly rising levels, the nearest level first.
\<close>

lemma walk_order:
  assumes "walk e handler up ms0 = Some r"
  shows "\<forall>m ms. up = replicate m ''..'' \<longrightarrow> r = Inr ms \<longrightarrow>
           (\<exists>new lv. ms = ms0 @ new
              \<and> list_all2 (\<lambda>pl l. \<exists>rest.
                    glob_sync e (middleware_pattern handler (replicate l ''..'')) = fst pl # rest)
                  new lv
              \<and> sorted_wrt (<) lv \<and> (\<forall>l\<in>set lv. m \<le> l))"
proof (induct rule: walk.raw_induct [OF _ assms])
  case (1 walk' e handler up ms0 r)
  show ?case
  proof (intro allI impI)
    fix m ms
    assume up: "up = replicate m ''..''" and r: "r = Inr ms"
    let ?R = "\<lambda>pl l. \<exists>rest.
                glob_sync e (middleware_pattern handler (replicate l ''..'')) = fst pl # rest"
    let ?goal = "\<exists>new lv. ms = ms0 @ new \<and> list_all2 ?R new lv
                   \<and> sorted_wrt (<) lv \<and> (\<forall>l\<in>set lv. m \<le> l)"
    show ?goal
    proof (cases "glob_sync e (middleware_pattern handler (replicate m ''..''))")
      case Nil
      with "1.hyps"(2) up r
      have "ms = ms0 @ [] \<and> list_all2 ?R [] [] \<and> sorted_wrt (<) ([]::nat list)
          \<and> (\<forall>l\<in>set ([]::nat list). m \<le> l)" by simp
      then show ?thesis by blast
    next
      case (Cons mw rest)
      from "1.hyps"(2) up r Cons obtain ms1 where
        step: "(if exists_sync e mw then load_middleware e mw ms0 else Inr ms0) = Inr ms1"
        and cont: "(if path_basename (level_dir handler (replicate m ''..'')) = ''handlers''
                    then Some (Inr ms1)
                    else walk' e handler (up @ [''..'']) ms1) = Some r"
        by (auto simp: Let_def split: if_splits sum.splits)
      from load_step_cases [OF step] obtain pre lp where
        ms1: "ms1 = ms0 @ pre" and pre: "list_all2 ?R pre lp" and lp: "lp = [] \<or> lp = [m]"
      proof
        assume "ms1 = ms0"
        then have "ms1 = ms0 @ []" "list_all2 ?R [] []" "[] = [] \<or> [] = [m]" by simp_all
        then show ?thesis by (rule that)
      next
        assume "\<exists>h. ms1 = ms0 @ [(mw, h)]"
        then obtain h where "ms1 = ms0 @ [(mw, h)]" ..
        moreover have "list_all2 ?R [(mw, h)] [m]" using Cons by simp
        ultimately show ?thesis using that by blast
      qed
      show ?thesis
      proof (cases "path_basename (level_dir handler (replicate m ''..'')) = ''handlers''")
        case True
        with cont r have "ms = ms1" by simp
        with ms1 pre lp have "ms = ms0 @ pre \<and> list_all2 ?R pre lp \<and> sorted_wrt (<) lp
            \<and> (\<forall>l\<in>set lp. m \<le> l)" by auto
        then show ?thesis by blast
      next
        case False
        with cont have w: "walk' e handler (up @ [''..'']) ms1 = Some r" by simp
        have up': "up @ [''..''] = replicate (Suc m) ''..''"
          by (simp add: up replicate_append_same)
        from "1.hyps"(1) [OF w, rule_format, OF up' r]
        obtain new lv where new: "ms = ms1 @ new" "list_all2 ?R new lv" "sorted_wrt (<) lv"
          and ge: "\<forall>l\<in>set lv. Suc m \<le> l" by blast
        have "ms = ms0 @ (pre @ new)" using new(1) ms1 by simp
        moreover have "list_all2 ?R (pre @ new) (lp @ lv)"
          using pre new(2) by (rule list_all2_appendI)
        moreover have "sorted_wrt (<) (lp @ lv)"
          using lp new(3) ge by (auto simp: sorted_wrt_append)
        moreover have "\<forall>l\<in>set (lp @ lv). m \<le> l"
          using lp ge by auto
        ultimately show ?thesis by blast
      qed
    qed
  qed
qed

text \<open>
  The walk returns, with a list or with an error, no later than a level whose lookup is
  empty or whose directory is named \<open>handlers\<close>.
\<close>

lemma walk_returns_by:
  assumes stop: "glob_sync e (middleware_pattern handler (replicate N ''..'')) = []
                 \<or> path_basename (level_dir handler (replicate N ''..'')) = ''handlers''"
  shows "k = N - m \<Longrightarrow> m \<le> N \<Longrightarrow> \<exists>r. walk e handler (replicate m ''..'') ms = Some r"
proof (induction k arbitrary: m ms)
  case 0
  then have "m = N" by simp
  with stop show ?case
    by (subst walk.simps) (auto simp: Let_def split: list.splits sum.splits)
next
  case (Suc k)
  then have "k = N - Suc m" and "Suc m \<le> N" by simp_all
  from Suc.IH [OF this]
  have "\<exists>r. walk e handler (replicate m ''..'' @ [''..'']) ms' = Some r" for ms'
    by (simp add: replicate_append_same)
  then show ?case
    by (subst walk.simps) (auto simp: Let_def split: list.splits sum.splits)
qed

text \<open>
  The walk returns whenever \<open>fs\<close> is unbound or the root directory holds no middleware
  file: from the level at which the searched directory is the root, the lookup is empty.
\<close>

lemma walk_returns_aux:
  assumes root: "glob_sync e [''middleware.*''] = []"
  shows "k = length handler - Suc m \<Longrightarrow> \<exists>r. walk e handler (replicate m ''..'') ms = Some r"
proof (induction k arbitrary: m ms)
  case 0
  then have "length handler \<le> Suc m" by simp
  then have "(path_dirname ^^ Suc m) handler = []"
    unfolding path_dirname_funpow by (rule butlast_funpow_short)
  then have "middleware_pattern handler (replicate m ''..'') = [''middleware.*'']"
    by (simp only: middleware_pattern_ups append_Nil)
  with root show ?case by (subst walk.simps) simp
next
  case (Suc k)
  then have k: "k = length handler - Suc (Suc m)" by simp
  from Suc.IH [OF k] have "\<exists>r. walk e handler (replicate m ''..'' @ [''..'']) ms' = Some r" for ms'
    by (simp add: replicate_append_same)
  then show ?case
    by (subst walk.simps) (auto simp: Let_def split: list.splits sum.splits)
qed

lemma walk_returns:
  assumes "\<not> fs_bound e \<or> glob_sync e [''middleware.*''] = []"
  shows "\<exists>r. walk e handler [''..''] [] = Some r"
proof (cases "fs_bound e")
  case False
  then show ?thesis by (subst walk.simps) (auto simp: Let_def split: list.splits)
next
  case True
  with assms have "glob_sync e [''middleware.*''] = []" by simp
  from walk_returns_aux [OF this refl, of handler 1 "[]"] show ?thesis by simp
qed

subsection \<open>Auxiliary facts: the schema merge\<close>

text \<open>In \<open>{...a, ...b}\<close> a property of \<open>b\<close> replaces the property of \<open>a\<close> with the same name.\<close>

lemma spread_into_map_of: "map_of (spread_into obj src) = map_of obj ++ map_of (rev src)"
  unfolding spread_into_def
proof (induction src arbitrary: obj)
  case Nil
  show ?case by simp
next
  case (Cons kv src)
  obtain k v where kv: "kv = (k, v)" by (cases kv)
  have "map_of (fold (\<lambda>(k, v). AList.update k v) src (AList.update k v obj))
          = map_of (AList.update k v obj) ++ map_of (rev src)"
    by (rule Cons.IH)
  also have "\<dots> = map_of obj ++ map_of (rev ((k, v) # src))"
    by (simp add: update_conv' fun_eq_iff map_add_def split: option.splits)
  finally show ?case by (simp add: kv)
qed

subsection \<open>Auxiliary facts: the concrete environments\<close>

lemma env_parent_unbound: "\<not> fs_bound (env_parent False entry)"
  by (simp add: env_parent_def mk_env_def)

lemma env_parent_glob:
  "glob_sync (env_parent b entry) (middleware_pattern users_handler [''..''])
     = [[''srv'', ''api'', ''middleware.js'']]"
  by code_simp

lemma env_deep_walk:
  "walk env_deep deep_handler [''..''] []
     = Some (Inr [([''p'', ''api'', ''handlers'', ''middleware.js''], Exported (JFun AsyncFn 1)),
                  ([''p'', ''api'', ''middleware.js''], Exported (JFun AsyncFn 2))])"
  by code_simp

lemma env_deep_level1:
  "glob_sync env_deep ((path_dirname ^^ Suc (Suc 0)) deep_handler @ [''middleware.*''])
     = [[''p'', ''api'', ''handlers'', ''middleware.js'']]
   \<and> fs_bound env_deep
   \<and> exists_sync env_deep [''p'', ''api'', ''handlers'', ''middleware.js'']
   \<and> load_middleware env_deep [''p'', ''api'', ''handlers'', ''middleware.js''] []
       = Inr [([''p'', ''api'', ''handlers'', ''middleware.js''], Exported (JFun AsyncFn 1))]
   \<and> path_basename ((path_dirname ^^ Suc 0) deep_handler) = ''x''"
  by code_simp

lemma env_deep_boundary:
  "path_basename ((path_dirname ^^ 2) deep_handler) = ''handlers''
   \<and> glob_sync env_deep ((path_dirname ^^ Suc 3) deep_handler @ [''middleware.*''])
       = [[''p'', ''middleware.js'']]"
  by code_simp

lemma env_deep_route_loader:
  "route_loader env_deep deep_handler
     = Some ([Middleware ([''p'', ''api'', ''middleware.js''], Exported (JFun AsyncFn 2)),
              Middleware ([''p'', ''api'', ''handlers'', ''middleware.js''], Exported (JFun AsyncFn 1)),
              HandlerPlugin (Exported (JFun AsyncFn 0))], None)"
  by code_simp

lemma env_schema_malformed:
  \<open>read_file_sync (env_schema True ''{"a":'')
       (path_resolve (path_dirname users_handler) [''schema.json'']) = Some ''{"a":''
   \<and> json_parse (env_schema True ''{"a":'') ''{"a":'' = None\<close>
  by code_simp

lemma env_root_pattern:
  "middleware_pattern root_handler (replicate (Suc n) ''..'') = [''middleware.*'']"
proof -
  have "(path_dirname ^^ Suc (Suc n)) root_handler = []"
    unfolding path_dirname_funpow by (rule butlast_funpow_short) (simp add: root_handler_def)
  then show ?thesis by (simp only: middleware_pattern_ups append_Nil)
qed

lemma env_root_glob: "glob_sync (env_root True) [''middleware.*''] = [[''middleware.js'']]"
  by code_simp

lemma env_root_basename:
  "path_basename (level_dir root_handler (replicate (Suc n) ''..'')) \<noteq> ''handlers''"
proof (cases n)
  case 0
  then show ?thesis by (simp add: level_dir_def root_handler_def path_basename_def)
next
  case (Suc k)
  have "(butlast ^^ Suc (Suc k)) root_handler = []"
    by (rule butlast_funpow_short) (simp add: root_handler_def)
  then show ?thesis
    unfolding Suc level_dir_ups path_dirname_funpow by (simp add: path_basename_def)
qed

lemma env_root_step:
  "(if exists_sync (env_root True) [''middleware.js'']
    then load_middleware (env_root True) [''middleware.js''] ms
    else Inr ms) = Inr (ms @ [fp [''middleware.js''] (Exported (JFun AsyncFn 1))])"
  by (simp add: exists_sync_def env_root_def mk_env_def load_middleware_def resolve_handle_def
      handle_truthy_def root_handler_def)

text \<open>
  In \<open>env_root True\<close> every level searches the root directory, finds \<open>/middleware.js\<close>,
  loads it and goes on: no level returns.
\<close>

lemma env_root_never_returns:
  assumes "walk e handler up ms = Some r"
  shows "e = env_root True \<longrightarrow> handler = root_handler \<longrightarrow> (\<forall>n. up \<noteq> replicate (Suc n) ''..'')"
proof (induct rule: walk.raw_induct [OF _ assms])
  case (1 walk' e handler up ms r)
  show ?case
  proof (intro impI allI notI)
    fix n
    assume e: "e = env_root True" and h: "handler = root_handler"
      and up: "up = replicate (Suc n) ''..''"
    have bound: "fs_bound (env_root True)" by (simp add: env_root_def mk_env_def)
    have up': "up @ [''..''] = replicate (Suc (Suc n)) ''..''"
      unfolding up by (simp add: replicate_append_same)
    from "1.hyps"(2)
    have "walk' e handler (up @ [''..'']) (ms @ [fp [''middleware.js''] (Exported (JFun AsyncFn 1))]) = Some r"
      unfolding e h up
      by (simp only: env_root_pattern env_root_glob env_root_step list.case bound Let_def
            not_True_eq_False if_False sum.case env_root_basename replicate_append_same)
    from "1.hyps"(1) [OF this] e h up' show False by blast
  qed
qed

section \<open>The claims\<close>

subsection \<open>Schema merge\<close>

text \<open>
  C1. The claim: for an inline schema \<open>{a:1}\<close> and a \<open>schema.json\<close> holding
  \<open>{a:2,b:3}\<close> the schema attached to the route is \<open>{a:1,b:3}\<close>, the handler's keys
  winning. At that input the wrapper computes \<open>{...override, ...file}\<close>, in which the file
  is copied last: where \<open>fs\<close> resolves, the schema recorded and forwarded is \<open>{a:2,b:3}\<close>;
  where it does not, the call throws a ReferenceError before any merge.
\<close>

theorem merge_prefers_schema_file_example:
  \<open>intercepted (env_schema True ''{"a":2,"b":3}'') users_handler ''get'' ''/''
      (JObj [(''schema'', JObj [(''a'', JNum 1)])]) (JFun AsyncFn 7) []
    = Inr ([(''get/'', JObj [(''a'', JNum 2), (''b'', JNum 3)])],
           ''/'', JObj [(''schema'', JObj [(''a'', JNum 2), (''b'', JNum 3)])], JFun AsyncFn 7)
   \<and> intercepted (env_schema False ''{"a":2,"b":3}'') users_handler ''get'' ''/''
      (JObj [(''schema'', JObj [(''a'', JNum 1)])]) (JFun AsyncFn 7) []
    = Inl ReferenceError\<close>
  by code_simp

subsection \<open>Where the walk looks\<close>

text \<open>
  C2, as the code has it. Level \<open>n + 1\<close> of the walk (the first level for \<open>n = 0\<close>, with
  which the walk starts) makes its lookup with the pattern \<open>middleware.*\<close> in the
  directory \<open>n + 2\<close> steps above the handler file: the first lookup names the parent of
  the directory that contains the handler, not that directory. What the level does is
  decided by that lookup alone: nothing found, it returns; a file found, it loads it
  and, unless it throws or the directory \<open>n + 1\<close> steps above the handler file is
  named \<open>handlers\<close>, goes on with level \<open>n + 2\<close>, whose lookup names the directory one
  step higher (the root being its own parent).
\<close>

theorem walk_level_lookup:
  "walk e handler (replicate (Suc n) ''..'') ms =
     (case glob_sync e ((path_dirname ^^ Suc (Suc n)) handler @ [''middleware.*'']) of
        [] \<Rightarrow> Some (Inr ms)
      | middleware # rest \<Rightarrow>
          if \<not> fs_bound e then Some (Inl ReferenceError)
          else
            (case (if exists_sync e middleware
                   then load_middleware e middleware ms
                   else Inr ms) of
               Inl err \<Rightarrow> Some (Inl err)
             | Inr ms' \<Rightarrow>
                 if path_basename ((path_dirname ^^ Suc n) handler) = ''handlers''
                 then Some (Inr ms')
                 else walk e handler (replicate (Suc (Suc n)) ''..'') ms'))"
proof -
  have up: "replicate (Suc n) ''..'' @ [''..''] = replicate (Suc (Suc n)) ''..''"
    by (simp add: replicate_append_same)
  show ?thesis
    by (subst walk.simps) (simp only: middleware_pattern_ups level_dir_ups Let_def up)
qed

text \<open>
  At \<open>/p/api/handlers/x/index.js\<close>: the first level searches \<open>/p/api/handlers\<close>, loads
  the file found there and hands over to the second level.
\<close>

theorem walk_level_lookup_witness:
  "glob_sync env_deep ((path_dirname ^^ Suc (Suc 0)) deep_handler @ [''middleware.*''])
     = [[''p'', ''api'', ''handlers'', ''middleware.js'']]
   \<and> walk env_deep deep_handler (replicate (Suc 0) ''..'') []
     = walk env_deep deep_handler (replicate (Suc (Suc 0)) ''..'')
         [([''p'', ''api'', ''handlers'', ''middleware.js''], Exported (JFun AsyncFn 1))]"
  using walk_level_lookup [of env_deep deep_handler 0 "[]"] env_deep_level1
  by (simp del: funpow.simps replicate.simps)

text \<open>
  The directory that contains \<open>/srv/api/users/index.js\<close> is \<open>/srv/api/users\<close>; the
  pattern of the first lookup is \<open>/srv/api/middleware.*\<close>. A middleware file beside the
  handler is not found, with \<open>fs\<close> bound or not, and one in \<open>/srv/api\<close> is.
\<close>

theorem first_lookup_counterexample:
  "path_dirname users_handler = [''srv'', ''api'', ''users'']
   \<and> middleware_pattern users_handler [''..''] = [''srv'', ''api'', ''middleware.*'']
   \<and> walk (env_sibling True) users_handler [''..''] [] = Some (Inr [])
   \<and> walk (env_sibling False) users_handler [''..''] [] = Some (Inr [])
   \<and> walk (env_parent True (JFun AsyncFn 1)) users_handler [''..''] []
       = Some (Inr [([''srv'', ''api'', ''middleware.js''], Exported (JFun AsyncFn 1))])"
  by code_simp

subsection \<open>Where the walk stops\<close>

text \<open>
  C3, as the code has it. Let level \<open>N \<ge> 1\<close> be one whose lookup finds no middleware file
  or whose own directory, \<open>N\<close> steps above the handler file, is named \<open>handlers\<close>. Then
  the walk returns, with its list or with an error, and every middleware in a list it
  returns is the first match of the lookup of a level \<open>n \<le> N\<close>, all levels below \<open>n\<close>
  having found a file and having a directory not named \<open>handlers\<close>. The lookup of level
  \<open>n\<close> names the directory \<open>n + 1\<close> steps above the handler file, so the lookup of the
  level whose directory is named \<open>handlers\<close> names the parent of that directory, and no
  lookup of a higher level contributes to the chain.
\<close>

theorem walk_stops_at_boundary:
  assumes "1 \<le> N"
    and "glob_sync e ((path_dirname ^^ Suc N) handler @ [''middleware.*'']) = []
         \<or> path_basename ((path_dirname ^^ N) handler) = ''handlers''"
  shows "\<exists>r. walk e handler [''..''] [] = Some r
          \<and> (\<forall>ms pl. r = Inr ms \<and> pl \<in> set ms \<longrightarrow>
               (\<exists>n. 1 \<le> n \<and> n \<le> N
                  \<and> (\<exists>rest. glob_sync e ((path_dirname ^^ Suc n) handler @ [''middleware.*''])
                              = fst pl # rest)
                  \<and> (\<forall>i. 1 \<le> i \<and> i < n \<longrightarrow>
                         path_basename ((path_dirname ^^ i) handler) \<noteq> ''handlers''
                       \<and> glob_sync e ((path_dirname ^^ Suc i) handler @ [''middleware.*'']) \<noteq> [])))"
proof -
  let ?G = "\<lambda>i. glob_sync e ((path_dirname ^^ Suc i) handler @ [''middleware.*''])"
  let ?B = "\<lambda>i. path_basename ((path_dirname ^^ i) handler)"
  have up: "[''..''] = replicate 1 ''..''" by simp
  have stop: "glob_sync e (middleware_pattern handler (replicate N ''..'')) = []
              \<or> path_basename (level_dir handler (replicate N ''..'')) = ''handlers''"
    using assms(2) by (simp only: middleware_pattern_ups level_dir_ups)
  from walk_returns_by [OF stop refl assms(1), of "[]"]
  obtain r where r: "walk e handler [''..''] [] = Some r" by auto
  have "\<exists>n. 1 \<le> n \<and> n \<le> N \<and> (\<exists>rest. ?G n = fst pl # rest)
            \<and> (\<forall>i. 1 \<le> i \<and> i < n \<longrightarrow> ?B i \<noteq> ''handlers'' \<and> ?G i \<noteq> [])"
    if ms: "r = Inr ms" and pl: "pl \<in> set ms" for ms pl
  proof -
    from walk_collected [OF r, unfolded middleware_pattern_ups level_dir_ups,
        rule_format, OF up ms pl]
    obtain n where n: "1 \<le> n" "\<exists>rest. ?G n = fst pl # rest"
      and below: "\<forall>i. 1 \<le> i \<and> i < n \<longrightarrow> ?B i \<noteq> ''handlers'' \<and> ?G i \<noteq> []"
      by auto
    have "n \<le> N"
    proof (rule ccontr)
      assume "\<not> n \<le> N"
      with assms(1) have "1 \<le> N \<and> N < n" by simp
      with below have "?B N \<noteq> ''handlers'' \<and> ?G N \<noteq> []" by blast
      with assms(2) show False by simp
    qed
    with n below show ?thesis by blast
  qed
  with r show ?thesis by blast
qed

text \<open>
  At \<open>/p/api/handlers/x/index.js\<close> with \<open>N = 2\<close>: the directory two steps above the
  handler file is \<open>/p/api/handlers\<close>. The walk returns the middleware of the first two
  levels; \<open>/p/middleware.js\<close>, which the lookup of a third level would find, is not
  in the chain.
\<close>

theorem walk_stops_at_boundary_witness:
  "1 \<le> (2::nat)
   \<and> path_basename ((path_dirname ^^ 2) deep_handler) = ''handlers''
   \<and> glob_sync env_deep ((path_dirname ^^ Suc 3) deep_handler @ [''middleware.*''])
       = [[''p'', ''middleware.js'']]
   \<and> walk env_deep deep_handler [''..''] []
       = Some (Inr [([''p'', ''api'', ''handlers'', ''middleware.js''], Exported (JFun AsyncFn 1)),
                    ([''p'', ''api'', ''middleware.js''], Exported (JFun AsyncFn 2))])
   \<and> (\<exists>r. walk env_deep deep_handler [''..''] [] = Some r
          \<and> (\<forall>ms pl. r = Inr ms \<and> pl \<in> set ms \<longrightarrow>
               (\<exists>n. 1 \<le> n \<and> n \<le> 2
                  \<and> (\<exists>rest. glob_sync env_deep ((path_dirname ^^ Suc n) deep_handler @ [''middleware.*''])
                              = fst pl # rest)
                  \<and> (\<forall>i. 1 \<le> i \<and> i < n \<longrightarrow>
                         path_basename ((path_dirname ^^ i) deep_handler) \<noteq> ''handlers''
                       \<and> glob_sync env_deep ((path_dirname ^^ Suc i) deep_handler @ [''middleware.*''])
                           \<noteq> []))))"
proof -
  have one: "1 \<le> (2::nat)" by simp
  have b: "path_basename ((path_dirname ^^ 2) deep_handler) = ''handlers''"
    using env_deep_boundary by blast
  have hyp: "glob_sync env_deep ((path_dirname ^^ Suc 2) deep_handler @ [''middleware.*'']) = []
         \<or> path_basename ((path_dirname ^^ 2) deep_handler) = ''handlers''"
    using b by blast
  from walk_stops_at_boundary [OF one hyp] one b env_deep_boundary env_deep_walk
  show ?thesis by blast
qed

text \<open>
  The second level of that walk tests the name of \<open>/p/api/handlers\<close>, which is
  \<open>handlers\<close>, after it has searched \<open>/p/api\<close>: the middleware of \<open>/p/api\<close>, a directory
  strictly above the one named \<open>handlers\<close>, is in the chain.
\<close>

theorem boundary_parent_collected_counterexample:
  "level_dir deep_handler [''..'', ''..''] = [''p'', ''api'', ''handlers'']
   \<and> path_basename (level_dir deep_handler [''..'', ''..'']) = ''handlers''
   \<and> walk env_deep deep_handler [''..''] []
       = Some (Inr [([''p'', ''api'', ''handlers'', ''middleware.js''], Exported (JFun AsyncFn 1)),
                    ([''p'', ''api'', ''middleware.js''], Exported (JFun AsyncFn 2))])"
  by code_simp

subsection \<open>Entry points\<close>

text \<open>
  C4. The claim: the handler's entry point is invoked whenever it is a callable function,
  synchronous or asynchronous. A handler module whose default export is an ordinary
  (synchronous) function has no \<open>Symbol.toStringTag\<close>, so the test of line 145 fails and
  the handler plugin is not registered: nothing is invoked and no error is raised. The
  same module with an async function is registered.
\<close>

theorem plain_function_handler_skipped_example:
  "route_loader (env_plain False (JFun PlainFn 0)) users_handler = Some ([], None)
   \<and> route_loader (env_plain True (JFun PlainFn 0)) users_handler = Some ([], None)
   \<and> route_loader (env_plain False (JFun AsyncFn 0)) users_handler
       = Some ([HandlerPlugin (Exported (JFun AsyncFn 0))], None)"
  by code_simp

subsection \<open>The unbound identifier\<close>

text \<open>
  C5, as the code has it. Where the identifier \<open>fs\<close> is unbound when the loader runs,
  as it is for a module that never imports it and runs without a global of that name:
  every level of the walk that finds a middleware file ends the walk with a
  ReferenceError, the registration of a handler whose first lookup finds a middleware
  file ends with that error and with nothing registered, and every call of a wrapped
  method throws it, whatever the arguments.
\<close>

theorem fs_unbound_reference_error:
  assumes "\<not> fs_bound e"
  shows "(glob_sync e (middleware_pattern handler up) \<noteq> [] \<longrightarrow>
            walk e handler up middlewares = Some (Inl ReferenceError))
       \<and> (glob_sync e (middleware_pattern handler [''..'']) \<noteq> [] \<longrightarrow>
            route_loader e handler = Some ([], Some ReferenceError))
       \<and> intercepted e handler method url arg1 arg2 schema = Inl ReferenceError"
proof (intro conjI impI)
  assume "glob_sync e (middleware_pattern handler up) \<noteq> []"
  with assms show "walk e handler up middlewares = Some (Inl ReferenceError)"
    by (rule walk_fs_unbound)
next
  assume "glob_sync e (middleware_pattern handler [''..'']) \<noteq> []"
  with assms have "walk e handler [''..''] [] = Some (Inl ReferenceError)"
    by (rule walk_fs_unbound)
  then show "route_loader e handler = Some ([], Some ReferenceError)"
    by (simp add: route_loader_def)
next
  from assms show "intercepted e handler method url arg1 arg2 schema = Inl ReferenceError"
    by (simp add: intercepted_def Let_def split: prod.splits)
qed

text \<open>At \<open>/srv/api/users/index.js\<close> with \<open>/srv/api/middleware.js\<close> and no global \<open>fs\<close>.\<close>

theorem fs_unbound_reference_error_witness:
  "\<not> fs_bound (env_parent False (JFun AsyncFn 1))
   \<and> glob_sync (env_parent False (JFun AsyncFn 1)) (middleware_pattern users_handler [''..'']) \<noteq> []
   \<and> walk (env_parent False (JFun AsyncFn 1)) users_handler [''..''] [] = Some (Inl ReferenceError)
   \<and> route_loader (env_parent False (JFun AsyncFn 1)) users_handler = Some ([], Some ReferenceError)
   \<and> intercepted (env_parent False (JFun AsyncFn 1)) users_handler ''get'' ''/'' JUndefined JUndefined []
        = Inl ReferenceError"
  using fs_unbound_reference_error [OF env_parent_unbound, of "JFun AsyncFn 1" users_handler
      "[''..'']" "[]" "''get''" "''/''" JUndefined JUndefined "[]"]
  by (simp add: env_parent_glob env_parent_unbound)

text \<open>
  Where \<open>fs\<close> resolves, the same handler with \<open>/srv/api/middleware.js\<close> is registered
  with its middleware, and a wrapped call is forwarded.
\<close>

theorem fs_bound_completes_counterexample:
  "route_loader (env_parent True (JFun AsyncFn 1)) users_handler
     = Some ([Middleware ([''srv'', ''api'', ''middleware.js''], Exported (JFun AsyncFn 1)),
              HandlerPlugin (Exported (JFun AsyncFn 0))], None)
   \<and> intercepted (env_parent True (JFun AsyncFn 1)) users_handler ''get'' ''/''
        JUndefined JUndefined []
     = Inr ([], (''/'', JObj [], JUndefined))"
  by code_simp

subsection \<open>A schema file that does not parse\<close>

text \<open>
  C6. The claim: a \<open>schema.json\<close> that holds invalid JSON does not make the registration
  throw, and the route is forwarded with the inline schema as declared. With \<open>fs\<close>
  unbound the call throws a ReferenceError at line 162, before the \<open>try\<close>; where \<open>fs\<close>
  resolves, the SyntaxError is swallowed and the inline schema is forwarded unchanged.
\<close>

theorem malformed_schema_file_example:
  \<open>intercepted (env_schema False ''{"a":'') users_handler ''get'' ''/''
      (JObj [(''schema'', JObj [(''a'', JNum 1)])]) (JFun AsyncFn 7) []
    = Inl ReferenceError
   \<and> intercepted (env_schema True ''{"a":'') users_handler ''get'' ''/''
      (JObj [(''schema'', JObj [(''a'', JNum 1)])]) (JFun AsyncFn 7) []
    = Inr ([(''get/'', JObj [(''a'', JNum 1)])],
           ''/'', JObj [(''schema'', JObj [(''a'', JNum 1)])], JFun AsyncFn 7)\<close>
  by code_simp

subsection \<open>Middleware that is not an async function\<close>

text \<open>
  C7. The claim: a middleware file that exports a plain synchronous function is skipped,
  and skipping it is not fatal to the handler's registration. With \<open>fs\<close> unbound the
  walk throws a ReferenceError at line 126 as soon as the file is found, and the
  handler is not registered; where \<open>fs\<close> resolves, the middleware is left out of the
  chain and the handler is registered.
\<close>

theorem sync_middleware_example:
  "route_loader (env_parent False (JFun PlainFn 1)) users_handler = Some ([], Some ReferenceError)
   \<and> route_loader (env_parent True (JFun PlainFn 1)) users_handler
       = Some ([HandlerPlugin (Exported (JFun AsyncFn 0))], None)"
  by code_simp

subsection \<open>Order of registration\<close>

text \<open>
  C8. When the walk returns the list \<open>ms\<close>, the registrations made for the handler are
  the members of \<open>ms\<close> in reverse order, followed by at most the handler's own plugin.
  The members of \<open>ms\<close> are first matches of the lookups of strictly rising levels, the
  lookup of level \<open>l\<close> naming the directory \<open>l + 1\<close> steps above the handler file: the
  walk collected nearest first, so the middleware found for the farthest directory is
  registered first and the one found for the nearest last.
\<close>

theorem chain_registered_in_reverse:
  assumes "walk e handler [''..''] [] = Some (Inr ms)"
    and "route_loader e handler = Some (regs, err)"
  shows "(\<exists>rest. regs = map Middleware (rev ms) @ rest
            \<and> (rest = [] \<or> (\<exists>h. rest = [HandlerPlugin h])))
       \<and> (\<exists>lv. list_all2 (\<lambda>pl l. \<exists>rest.
                    glob_sync e ((path_dirname ^^ Suc l) handler @ [''middleware.*''])
                      = fst pl # rest) ms lv
            \<and> sorted_wrt (<) lv \<and> (\<forall>l\<in>set lv. 1 \<le> l))"
proof
  from assms show "\<exists>rest. regs = map Middleware (rev ms) @ rest
            \<and> (rest = [] \<or> (\<exists>h. rest = [HandlerPlugin h]))"
    by (auto simp: route_loader_def Let_def split: option.splits if_splits)
next
  have up: "[''..''] = replicate 1 ''..''" by simp
  from walk_order [OF assms(1), unfolded middleware_pattern_ups, rule_format, OF up refl]
  show "\<exists>lv. list_all2 (\<lambda>pl l. \<exists>rest.
                    glob_sync e ((path_dirname ^^ Suc l) handler @ [''middleware.*''])
                      = fst pl # rest) ms lv
            \<and> sorted_wrt (<) lv \<and> (\<forall>l\<in>set lv. 1 \<le> l)"
    by auto
qed

text \<open>
  At \<open>/p/api/handlers/x/index.js\<close>: collected nearest first, registered farthest first.
\<close>

theorem chain_registered_in_reverse_witness:
  "walk env_deep deep_handler [''..''] []
     = Some (Inr [([''p'', ''api'', ''handlers'', ''middleware.js''], Exported (JFun AsyncFn 1)),
                  ([''p'', ''api'', ''middleware.js''], Exported (JFun AsyncFn 2))])
   \<and> route_loader env_deep deep_handler
     = Some ([Middleware ([''p'', ''api'', ''middleware.js''], Exported (JFun AsyncFn 2)),
              Middleware ([''p'', ''api'', ''handlers'', ''middleware.js''], Exported (JFun AsyncFn 1)),
              HandlerPlugin (Exported (JFun AsyncFn 0))], None)
   \<and> (\<exists>rest. [Middleware ([''p'', ''api'', ''middleware.js''], Exported (JFun AsyncFn 2)),
              Middleware ([''p'', ''api'', ''handlers'', ''middleware.js''], Exported (JFun AsyncFn 1)),
              HandlerPlugin (Exported (JFun AsyncFn 0))]
            = map Middleware
                (rev [([''p'', ''api'', ''handlers'', ''middleware.js''], Exported (JFun AsyncFn 1)),
                      ([''p'', ''api'', ''middleware.js''], Exported (JFun AsyncFn 2))]) @ rest
            \<and> (rest = [] \<or> (\<exists>h. rest = [HandlerPlugin h])))
   \<and> (\<exists>lv. list_all2 (\<lambda>pl l. \<exists>rest.
                    glob_sync env_deep ((path_dirname ^^ Suc l) deep_handler @ [''middleware.*''])
                      = fst pl # rest)
              [([''p'', ''api'', ''handlers'', ''middleware.js''], Exported (JFun AsyncFn 1)),
               ([''p'', ''api'', ''middleware.js''], Exported (JFun AsyncFn 2))] lv
            \<and> sorted_wrt (<) lv \<and> (\<forall>l\<in>set lv. 1 \<le> l))"
  using chain_registered_in_reverse [OF env_deep_walk env_deep_route_loader]
    env_deep_walk env_deep_route_loader
  by blast

subsection \<open>No schema from either source\<close>

text \<open>
  C9, as the code has it. When the handler declares no inline schema (the options it
  passes, or the empty options the wrapper supplies, have no \<open>schema\<close>) and the sibling
  \<open>schema.json\<close> is absent or does not parse, the table is left as it was and the
  options are forwarded as they were, without a schema; with \<open>fs\<close> unbound the call
  throws before that, and nothing is recorded or forwarded.
\<close>

theorem no_schema_source_no_entry:
  assumes "unpack_args arg1 arg2 = (options, route)"
    and "get_prop options ''schema'' = Inr JUndefined"
    and "\<not> exists_sync e (path_resolve (path_dirname handler) [''schema.json''])
         \<or> (\<exists>text. read_file_sync e (path_resolve (path_dirname handler) [''schema.json'']) = Some text
                  \<and> json_parse e text = None)"
  shows "intercepted e handler method url arg1 arg2 schema
           = (if fs_bound e then Inr (schema, (url, options, route)) else Inl ReferenceError)"
  using assms
  by (auto simp: intercepted_def merge_schema_file_def Let_def)

text \<open>At a call \<open>get('/', fn)\<close> beside a \<open>schema.json\<close> that is cut short.\<close>

theorem no_schema_source_no_entry_witness:
  \<open>unpack_args (JFun AsyncFn 7) JUndefined = (JObj [], JFun AsyncFn 7)
   \<and> get_prop (JObj []) ''schema'' = Inr JUndefined
   \<and> read_file_sync (env_schema True ''{"a":'')
        (path_resolve (path_dirname users_handler) [''schema.json'']) = Some ''{"a":''
   \<and> json_parse (env_schema True ''{"a":'') ''{"a":'' = None
   \<and> intercepted (env_schema True ''{"a":'') users_handler ''get'' ''/'' (JFun AsyncFn 7) JUndefined []
        = Inr ([], (''/'', JObj [], JFun AsyncFn 7))\<close>
proof -
  have a: "unpack_args (JFun AsyncFn 7) JUndefined = (JObj [], JFun AsyncFn 7)"
    by (simp add: unpack_args_def)
  have b: "get_prop (JObj []) ''schema'' = Inr JUndefined" by simp
  have c: \<open>\<not> exists_sync (env_schema True ''{"a":'')
              (path_resolve (path_dirname users_handler) [''schema.json''])
         \<or> (\<exists>text. read_file_sync (env_schema True ''{"a":'')
                      (path_resolve (path_dirname users_handler) [''schema.json'']) = Some text
                  \<and> json_parse (env_schema True ''{"a":'') text = None)\<close>
    using env_schema_malformed by blast
  have d: \<open>fs_bound (env_schema True ''{"a":'')\<close> by (simp add: env_schema_def mk_env_def)
  from no_schema_source_no_entry [OF a b c, of "''get''" "''/''" "[]"] d a b env_schema_malformed
  show ?thesis by simp
qed

text \<open>
  The same call beside a \<open>schema.json\<close> that holds \<open>{"a":2,"b":3}\<close>: the handler declared
  no schema, and the file's contents are recorded under \<open>get/\<close> and forwarded.
\<close>

theorem schema_file_alone_counterexample:
  \<open>intercepted (env_schema True ''{"a":2,"b":3}'') users_handler ''get'' ''/''
      (JFun AsyncFn 7) JUndefined []
    = Inr ([(''get/'', JObj [(''a'', JNum 2), (''b'', JNum 3)])],
           ''/'', JObj [(''schema'', JObj [(''a'', JNum 2), (''b'', JNum 3)])], JFun AsyncFn 7)\<close>
  by code_simp

subsection \<open>Termination of the walk\<close>

text \<open>
  C10. The claim: the loop of the walk always terminates. For \<open>/api/index.js\<close> with a
  file \<open>/middleware.js\<close> in the root directory and \<open>fs\<close> resolving, every level
  searches the root (the parent of the root is the root), finds the file and goes on;
  no level's directory is named \<open>handlers\<close>: the walk never returns, and so neither
  does the registration of the handler. With \<open>fs\<close> unbound the same walk ends at its
  first level with a ReferenceError.
\<close>

theorem walk_at_root_never_returns:
  "walk (env_root True) root_handler [''..''] [] = None
   \<and> route_loader (env_root True) root_handler = None
   \<and> route_loader (env_root False) root_handler = Some ([], Some ReferenceError)"
proof -
  have w: "walk (env_root True) root_handler [''..''] [] = None"
  proof (cases "walk (env_root True) root_handler [''..''] []")
    case None
    then show ?thesis .
  next
    case (Some r)
    from env_root_never_returns [OF Some] have "[''..''] \<noteq> replicate (Suc 0) ''..''" by blast
    then show ?thesis by simp
  qed
  have "route_loader (env_root False) root_handler = Some ([], Some ReferenceError)"
    by code_simp
  with w show ?thesis by (simp add: route_loader_def)
qed

end
